theory Spec2Isabelle
  imports Main "HOL-Library.Word"
begin

unbundle bit_operations_syntax

section \<open>Hardware model\<close>

text \<open>
  The driver talks to four GPIO lines and one SPI bus. Everything the hardware can
  observe is recorded, in order, in a trace of events. An SPI write is recorded together
  with the level of the data/command line at that moment: this is what the controller
  samples to tell a command byte (level low) from a data byte (level high).
\<close>

datatype pin = RST | DC | CS | BUSY

datatype event =
    PinWrite pin bool
  | PinRead pin bool
  | Delay int
  | SpiConfigure
  | SpiWrite bool "int list"
  | Print string

text \<open>
  Exceptions of the Python code: \<open>bytearray\<close> of a value outside \<open>range(0, 256)\<close>,
  an index past the end of a buffer, and the two bus calls that may raise.
\<close>

datatype error = ValueError | IndexError | SpiConfigureError | SpiWriteError

text \<open>
  The environment is what the driver cannot control: the level of the busy line at each
  successive read, and whether the n-th call of \<open>spi.configure\<close> or \<open>spi.write\<close> raises.
\<close>

record hw_env =
  busy_line :: "nat \<Rightarrow> bool"
  configure_raises :: "nat \<Rightarrow> bool"
  write_raises :: "nat \<Rightarrow> bool"

record epd =
  pins :: "pin \<Rightarrow> bool"
  spi_locked :: bool
  busy_polls :: nat
  configure_calls :: nat
  write_calls :: nat
  framebuffer_black_array :: "8 word list"
  framebuffer_red_array :: "8 word list"
  trace :: "event list"
  env :: hw_env

text \<open>
  A method of the driver either runs forever (\<open>None\<close>), or stops with an exception or a
  value, in a new state. The state reached when an exception is raised is kept, since
  the pin writes made before it stay made.
\<close>

type_synonym 'a prog = "epd \<Rightarrow> ((error + 'a) \<times> epd) option"

definition ret :: "'a \<Rightarrow> 'a prog" where
  "ret x s = Some (Inr x, s)"

definition raise :: "error \<Rightarrow> 'a prog" where
  "raise e s = Some (Inl e, s)"

definition bind :: "'a prog \<Rightarrow> ('a \<Rightarrow> 'b prog) \<Rightarrow> 'b prog" where
  "bind m f s =
     (case m s of
        None \<Rightarrow> None
      | Some (Inl e, s') \<Rightarrow> Some (Inl e, s')
      | Some (Inr x, s') \<Rightarrow> f x s')"

definition lift :: "(epd \<Rightarrow> epd) \<Rightarrow> unit prog" where
  "lift f s = Some (Inr (), f s)"

text \<open>A block of statements, run in order until one of them raises or diverges.\<close>

fun run :: "unit prog list \<Rightarrow> unit prog" where
  "run [] s = Some (Inr (), s)"
| "run (m # ms) s =
     (case m s of
        None \<Rightarrow> None
      | Some (Inl e, s') \<Rightarrow> Some (Inl e, s')
      | Some (Inr u, s') \<Rightarrow> run ms s')"

text \<open>\<open>for x in range(0, n): body(x)\<close>\<close>

definition for_range :: "nat \<Rightarrow> (nat \<Rightarrow> unit prog) \<Rightarrow> unit prog" where
  "for_range n body = run (map body [0..<n])"

section \<open>Panel geometry\<close>

definition EPD_WIDTH :: int where
  "EPD_WIDTH = 122"

definition EPD_HEIGHT :: int where
  "EPD_HEIGHT = 250"

definition width :: int where
  "width = (if EPD_WIDTH mod 8 = 0 then EPD_WIDTH else (EPD_WIDTH div 8) * 8 + 8)"

definition height :: int where
  "height = EPD_HEIGHT"

text \<open>
  \<open>int(self.width / 8)\<close>: the true division of a multiple of 8 is exact, so the
  truncation gives the integer quotient.
\<close>

definition byte_stride :: int where
  "byte_stride = width div 8"

section \<open>GPIO and timing primitives\<close>

definition digital_write :: "pin \<Rightarrow> bool \<Rightarrow> epd \<Rightarrow> epd" where
  "digital_write p v s = s\<lparr>pins := (pins s)(p := v), trace := trace s @ [PinWrite p v]\<rparr>"

text \<open>
  Reading the busy input consumes the next level of the environment; reading an output
  gives back what was last written.
\<close>

definition digital_read :: "pin \<Rightarrow> epd \<Rightarrow> bool \<times> epd" where
  "digital_read p s =
     (if p = BUSY
      then (let v = busy_line (env s) (busy_polls s)
            in (v, s\<lparr>busy_polls := busy_polls s + 1, trace := trace s @ [PinRead BUSY v]\<rparr>))
      else (pins s p, s\<lparr>trace := trace s @ [PinRead p (pins s p)]\<rparr>))"

definition delay_ms :: "int \<Rightarrow> epd \<Rightarrow> epd" where
  "delay_ms delaytime s = s\<lparr>trace := trace s @ [Delay delaytime]\<rparr>"

definition print :: "string \<Rightarrow> epd \<Rightarrow> epd" where
  "print msg s = s\<lparr>trace := trace s @ [Print msg]\<rparr>"

definition module_exit :: "epd \<Rightarrow> epd" where
  "module_exit s = digital_write RST False s"

section \<open>Bus transport\<close>

definition try_lock :: "epd \<Rightarrow> bool \<times> epd" where
  "try_lock s = (if spi_locked s then (False, s) else (True, s\<lparr>spi_locked := True\<rparr>))"

definition unlock :: "epd \<Rightarrow> epd" where
  "unlock s = s\<lparr>spi_locked := False\<rparr>"

text \<open>\<open>while not self.spi.try_lock(): pass\<close>\<close>

partial_function (option) spin_lock :: "epd \<Rightarrow> ((error + unit) \<times> epd) option" where
  "spin_lock s = (case try_lock s of (ok, s') \<Rightarrow> if ok then Some (Inr (), s') else spin_lock s')"

definition spi_configure :: "unit prog" where
  "spi_configure s =
     (let s' = s\<lparr>configure_calls := configure_calls s + 1\<rparr>
      in if configure_raises (env s) (configure_calls s)
         then Some (Inl SpiConfigureError, s')
         else Some (Inr (), s'\<lparr>trace := trace s @ [SpiConfigure]\<rparr>))"

text \<open>
  \<open>self.spi.write(bytearray(data))\<close>: the argument is built first, and \<open>bytearray\<close>
  raises on an element outside \<open>range(0, 256)\<close>.
\<close>

definition spi_write :: "int list \<Rightarrow> unit prog" where
  "spi_write data s =
     (if \<exists>b \<in> set data. b < 0 \<or> 255 < b then Some (Inl ValueError, s)
      else (let s' = s\<lparr>write_calls := write_calls s + 1\<rparr>
            in if write_raises (env s) (write_calls s)
               then Some (Inl SpiWriteError, s')
               else Some (Inr (), s'\<lparr>trace := trace s @ [SpiWrite (pins s DC) data]\<rparr>)))"

text \<open>The body of the \<open>try\<close> block of \<open>spi_writebyte\<close>.\<close>

definition spi_transfer :: "int list \<Rightarrow> unit prog" where
  "spi_transfer data =
     run [spi_configure,
          lift (digital_write CS False),
          spi_write data,
          lift (digital_write CS True)]"

text \<open>\<open>try: ... finally: self.spi.unlock()\<close>: the lock is released on both exits.\<close>

definition spi_writebyte :: "int list \<Rightarrow> unit prog" where
  "spi_writebyte data s =
     (case spin_lock s of
        None \<Rightarrow> None
      | Some (Inl e, s1) \<Rightarrow> Some (Inl e, s1)
      | Some (Inr u, s1) \<Rightarrow>
          (case spi_transfer data s1 of
             None \<Rightarrow> None
           | Some (r, s2) \<Rightarrow> Some (r, unlock s2)))"

section \<open>Controller protocol engine\<close>

definition send_command :: "int \<Rightarrow> unit prog" where
  "send_command command =
     run [lift (digital_write DC False),
          lift (digital_write CS False),
          spi_writebyte [command],
          lift (digital_write CS True)]"

definition send_data :: "int \<Rightarrow> unit prog" where
  "send_data data =
     run [lift (digital_write DC True),
          lift (digital_write CS False),
          spi_writebyte [data],
          lift (digital_write CS True)]"

definition reset :: "epd \<Rightarrow> epd" where
  "reset s =
     delay_ms 50 (digital_write RST True
       (delay_ms 2 (digital_write RST False
         (delay_ms 50 (digital_write RST True s)))))"

text \<open>
  The loop of \<open>ReadBusy\<close>: while the busy line reads asserted, send the status command
  again and wait 10 ms. It has no bound, so it is a partial function.
\<close>

partial_function (option) ReadBusy_loop :: "epd \<Rightarrow> ((error + unit) \<times> epd) option" where
  "ReadBusy_loop s =
     (case digital_read BUSY s of
        (b, s1) \<Rightarrow>
          if b
          then (case run [send_command 0x71, lift (delay_ms 10)] s1 of
                  None \<Rightarrow> None
                | Some (Inl e, s2) \<Rightarrow> Some (Inl e, s2)
                | Some (Inr u, s2) \<Rightarrow> ReadBusy_loop s2)
          else Some (Inr (), s1))"

definition ReadBusy :: "unit prog" where
  "ReadBusy =
     run [lift (print ''Display busy''),
          send_command 0x71,
          ReadBusy_loop,
          lift (print ''Display free'')]"

definition TurnOnDisplay :: "unit prog" where
  "TurnOnDisplay = run [send_command 0x20, ReadBusy]"

definition SetWindows :: "int \<Rightarrow> int \<Rightarrow> int \<Rightarrow> int \<Rightarrow> unit prog" where
  "SetWindows Xstart Ystart Xend Yend =
     run [send_command 0x44,
          send_data ((drop_bit 3 Xstart) AND 0xFF),
          send_data ((drop_bit 3 Xend) AND 0xFF),
          send_command 0x45,
          send_data (Ystart AND 0xFF),
          send_data ((drop_bit 8 Ystart) AND 0xFF),
          send_data (Yend AND 0xFF),
          send_data ((drop_bit 8 Yend) AND 0xFF)]"

definition SetCursor :: "int \<Rightarrow> int \<Rightarrow> unit prog" where
  "SetCursor Xstart Ystart =
     run [send_command 0x4E,
          send_data (Xstart AND 0xFF),
          send_command 0x4F,
          send_data (Ystart AND 0xFF),
          send_data ((drop_bit 8 Ystart) AND 0xFF)]"

definition init :: "int prog" where
  "init =
     bind (run [lift reset,
                ReadBusy,
                send_command 0x12,
                ReadBusy,
                send_command 0x01,
                send_data 0xf9,
                send_data 0x00,
                send_data 0x00,
                send_command 0x11,
                send_data 0x03,
                SetWindows 0 0 (width - 1) (height - 1),
                SetCursor 0 0,
                send_command 0x3C,
                send_data 0x05,
                send_command 0x18,
                send_data 0x80,
                send_command 0x21,
                send_data 0x80,
                send_data 0x80,
                ReadBusy,
                lift (print ''Display initialized'')])
          (\<lambda>u. ret 0)"

definition Clear :: "int \<Rightarrow> int \<Rightarrow> unit prog" where
  "Clear colorblack colorred =
     run [send_command 0x24,
          for_range (nat height) (\<lambda>j. for_range (nat byte_stride) (\<lambda>i. send_data colorblack)),
          send_command 0x26,
          for_range (nat height) (\<lambda>j. for_range (nat byte_stride) (\<lambda>i. send_data colorred)),
          TurnOnDisplay]"

text \<open>
  \<open>buf[k]\<close> on a bytearray, for an index that is not negative: the byte as an integer,
  or \<open>IndexError\<close> past the end.
\<close>

definition getitem :: "8 word list \<Rightarrow> nat \<Rightarrow> int prog" where
  "getitem buf k = (if k < length buf then ret (uint (buf ! k)) else raise IndexError)"

definition display :: "unit prog" where
  "display =
     run [send_command 0x24,
          for_range (nat height) (\<lambda>j. for_range (nat byte_stride) (\<lambda>i.
            (\<lambda>s. bind (getitem (framebuffer_black_array s) (i + j * nat byte_stride)) send_data s))),
          send_command 0x26,
          for_range (nat height) (\<lambda>j. for_range (nat byte_stride) (\<lambda>i.
            (\<lambda>s. bind (getitem (framebuffer_red_array s) (i + j * nat byte_stride)) send_data s))),
          TurnOnDisplay]"

definition sleep :: "unit prog" where
  "sleep =
     run [send_command 0x10,
          send_data 0x01,
          lift (delay_ms 2000),
          lift module_exit]"

text \<open>
  The constructor: the output lines are created low, both plane buffers are zeroed
  bytearrays of \<open>height * width // 8\<close> bytes, and \<open>init\<close> is run.
\<close>

definition fresh :: "hw_env \<Rightarrow> epd" where
  "fresh e =
     \<lparr>pins = (\<lambda>p. False),
      spi_locked = False,
      busy_polls = 0,
      configure_calls = 0,
      write_calls = 0,
      framebuffer_black_array = replicate (nat (height * width div 8)) 0,
      framebuffer_red_array = replicate (nat (height * width div 8)) 0,
      trace = [],
      env = e\<rparr>"

definition EPD_2in13_B_V4 :: "hw_env \<Rightarrow> ((error + int) \<times> epd) option" where
  "EPD_2in13_B_V4 e = init (fresh e)"

section \<open>What the bus and the lines show\<close>

text \<open>
  The bytes seen by the controller, each with the level of the data/command line:
  \<open>(False, c)\<close> is the command byte \<open>c\<close>, \<open>(True, d)\<close> the data byte \<open>d\<close>.
\<close>

fun bus_of :: "event \<Rightarrow> (bool \<times> int) list" where
  "bus_of (SpiWrite d bs) = map (Pair d) bs"
| "bus_of (PinWrite p v) = []"
| "bus_of (PinRead p v) = []"
| "bus_of (Delay t) = []"
| "bus_of SpiConfigure = []"
| "bus_of (Print msg) = []"

definition bus :: "event list \<Rightarrow> (bool \<times> int) list" where
  "bus tr = concat (map bus_of tr)"

definition Cmd :: "int \<Rightarrow> bool \<times> int" where
  "Cmd c = (False, c)"

definition Dat :: "int \<Rightarrow> bool \<times> int" where
  "Dat d = (True, d)"

definition commands :: "event list \<Rightarrow> int list" where
  "commands tr = map snd (filter (\<lambda>x. \<not> fst x) (bus tr))"

definition data_bytes :: "event list \<Rightarrow> int list" where
  "data_bytes tr = map snd (filter fst (bus tr))"

fun is_rst_write :: "event \<Rightarrow> bool" where
  "is_rst_write (PinWrite p v) = (p = RST)"
| "is_rst_write (PinRead p v) = False"
| "is_rst_write (Delay t) = False"
| "is_rst_write SpiConfigure = False"
| "is_rst_write (SpiWrite d bs) = False"
| "is_rst_write (Print msg) = False"

text \<open>An environment in which no bus call raises, and a driver that can take the bus.\<close>

definition healthy :: "hw_env \<Rightarrow> bool" where
  "healthy e = (\<forall>n. \<not> configure_raises e n \<and> \<not> write_raises e n)"

definition ready :: "epd \<Rightarrow> bool" where
  "ready s = (healthy (env s) \<and> \<not> spi_locked s)"

text \<open>The events of one byte sent without an exception, and the state it leaves.\<close>

definition frame :: "bool \<Rightarrow> int \<Rightarrow> event list" where
  "frame d b =
     [PinWrite DC d, PinWrite CS False,
      SpiConfigure, PinWrite CS False, SpiWrite d [b], PinWrite CS True,
      PinWrite CS True]"

definition sent :: "bool \<Rightarrow> int \<Rightarrow> epd \<Rightarrow> epd" where
  "sent d b s =
     s\<lparr>pins := (pins s)(DC := d, CS := True),
       configure_calls := configure_calls s + 1,
       write_calls := write_calls s + 1,
       trace := trace s @ frame d b\<rparr>"

definition reset_events :: "event list" where
  "reset_events =
     [PinWrite RST True, Delay 50, PinWrite RST False, Delay 2, PinWrite RST True, Delay 50]"

text \<open>The events of one turn of the polling loop, and the state after \<open>n\<close> turns.\<close>

definition poll_events :: "event list" where
  "poll_events = PinRead BUSY True # frame False 0x71 @ [Delay 10]"

definition busy_read :: "bool \<Rightarrow> epd \<Rightarrow> epd" where
  "busy_read v s = s\<lparr>busy_polls := busy_polls s + 1, trace := trace s @ [PinRead BUSY v]\<rparr>"

fun polled :: "nat \<Rightarrow> epd \<Rightarrow> epd" where
  "polled 0 s = busy_read False s"
| "polled (Suc n) s = polled n (delay_ms 10 (sent False 0x71 (busy_read True s)))"

text \<open>The busy line reads asserted \<open>n\<close> times from now on, and deasserted the next time.\<close>

definition busy_for :: "nat \<Rightarrow> epd \<Rightarrow> bool" where
  "busy_for n s =
     ((\<forall>k < n. busy_line (env s) (busy_polls s + k)) \<and> \<not> busy_line (env s) (busy_polls s + n))"

text \<open>A run of data bytes sent one after the other.\<close>

definition streamed :: "int list \<Rightarrow> epd \<Rightarrow> epd" where
  "streamed bs s = foldl (\<lambda>t b. sent True b t) s bs"

text \<open>The state after a \<open>ReadBusy\<close> that found the line asserted \<open>n\<close> times.\<close>

definition read_busy_done :: "nat \<Rightarrow> epd \<Rightarrow> epd" where
  "read_busy_done n s =
     print ''Display free'' (polled n (sent False 0x71 (print ''Display busy'' s)))"

text \<open>The events added between two states, and the bytes a call puts on the bus.\<close>

definition emitted :: "epd \<Rightarrow> epd \<Rightarrow> event list" where
  "emitted s s' = drop (length (trace s)) (trace s')"

definition after :: "'a prog \<Rightarrow> epd \<Rightarrow> epd" where
  "after m s = (case m s of None \<Rightarrow> s | Some (r, s') \<Rightarrow> s')"

definition emits :: "'a prog \<Rightarrow> epd \<Rightarrow> (bool \<times> int) list" where
  "emits m s = bus (emitted s (after m s))"

text \<open>A call is rejected when it stops with an exception.\<close>

definition rejected :: "((error + 'a) \<times> epd) option \<Rightarrow> bool" where
  "rejected out = (case out of None \<Rightarrow> False | Some (Inl e, s') \<Rightarrow> True | Some (Inr x, s') \<Rightarrow> False)"

text \<open>
  A step that leaves the plane buffers and the environment alone, only adds events,
  and does not touch the reset line.
\<close>

definition quiet :: "epd \<Rightarrow> epd \<Rightarrow> bool" where
  "quiet s s' =
     (framebuffer_black_array s' = framebuffer_black_array s \<and>
      framebuffer_red_array s' = framebuffer_red_array s \<and>
      env s' = env s \<and>
      (\<exists>ev. trace s' = trace s @ ev \<and> \<not> (\<exists>e \<in> set ev. is_rst_write e)))"

definition keeps :: "'a prog \<Rightarrow> bool" where
  "keeps m = (\<forall>s r s'. m s = Some (r, s') \<longrightarrow> quiet s s')"

text \<open>A busy line that is deasserted again and again, and a driver on such a line.\<close>

definition settles :: "hw_env \<Rightarrow> bool" where
  "settles e = (\<forall>i. \<exists>j\<ge>i. \<not> busy_line e j)"

definition good :: "epd \<Rightarrow> bool" where
  "good s = (ready s \<and> settles (env s))"

definition returns :: "unit prog \<Rightarrow> bool" where
  "returns m = (\<forall>s. good s \<longrightarrow> (\<exists>s'. m s = Some (Inr (), s') \<and> good s'))"

text \<open>Environments used to run the driver on concrete inputs.\<close>

definition idle_env :: hw_env where
  "idle_env =
     \<lparr>busy_line = (\<lambda>i. False), configure_raises = (\<lambda>n. False), write_raises = (\<lambda>n. False)\<rparr>"

definition busy_once_env :: hw_env where
  "busy_once_env =
     \<lparr>busy_line = (\<lambda>i. i = 0), configure_raises = (\<lambda>n. False), write_raises = (\<lambda>n. False)\<rparr>"

definition busy_twice_env :: hw_env where
  "busy_twice_env =
     \<lparr>busy_line = (\<lambda>i. i < 2), configure_raises = (\<lambda>n. False), write_raises = (\<lambda>n. False)\<rparr>"

definition write_fault_env :: hw_env where
  "write_fault_env =
     \<lparr>busy_line = (\<lambda>i. False), configure_raises = (\<lambda>n. False), write_raises = (\<lambda>n. True)\<rparr>"

text \<open>The state after both planes are written, and after the refresh that follows.\<close>

definition ram_written :: "int list \<Rightarrow> int list \<Rightarrow> epd \<Rightarrow> epd" where
  "ram_written bs rs s = streamed rs (sent False 0x26 (streamed bs (sent False 0x24 s)))"

definition refreshed :: "nat \<Rightarrow> epd \<Rightarrow> epd" where
  "refreshed n s = read_busy_done n (sent False 0x20 s)"

section \<open>Blocks of statements\<close>

lemma run_append:
  "run (ms @ ns) s =
     (case run ms s of
        None \<Rightarrow> None
      | Some (Inl e, s') \<Rightarrow> Some (Inl e, s')
      | Some (Inr u, s') \<Rightarrow> run ns s')"
  by (induction ms arbitrary: s) (auto split: option.splits sum.splits)

lemma lift_apply [simp]: "lift f s = Some (Inr (), f s)"
  by (simp add: lift_def)

lemma run_lift: "run (lift f # ms) s = run ms (f s)"
  by simp

lemma run_step_ok: "m s = Some (Inr (), s') \<Longrightarrow> run (m # ms) s = run ms s'"
  by simp

section \<open>One framed byte\<close>

lemma spin_lock_free:
  "\<not> spi_locked s \<Longrightarrow> spin_lock s = Some (Inr (), s\<lparr>spi_locked := True\<rparr>)"
  by (subst spin_lock.simps) (simp add: try_lock_def)

lemma spi_writebyte_ok:
  assumes "healthy (env s)" and "\<not> spi_locked s" and "0 \<le> b" and "b \<le> 255"
  shows "spi_writebyte [b] s =
           Some (Inr (), s\<lparr>pins := (pins s)(CS := True),
                           configure_calls := configure_calls s + 1,
                           write_calls := write_calls s + 1,
                           trace := trace s @ [SpiConfigure, PinWrite CS False,
                                               SpiWrite (pins s DC) [b], PinWrite CS True]\<rparr>)"
  using assms
  by (simp add: spi_writebyte_def spin_lock_free spi_transfer_def spi_configure_def
      spi_write_def digital_write_def unlock_def healthy_def Let_def lift_def)

lemma send_command_ok:
  assumes "ready s" and "0 \<le> c" and "c \<le> 255"
  shows "send_command c s = Some (Inr (), sent False c s)"
  using assms
  by (simp add: send_command_def ready_def spi_writebyte_ok digital_write_def sent_def frame_def
      lift_def)

lemma send_data_ok:
  assumes "ready s" and "0 \<le> b" and "b \<le> 255"
  shows "send_data b s = Some (Inr (), sent True b s)"
  using assms
  by (simp add: send_data_def ready_def spi_writebyte_ok digital_write_def sent_def frame_def
      lift_def)

lemma sent_simps [simp]:
  "trace (sent d b s) = trace s @ frame d b"
  "env (sent d b s) = env s"
  "spi_locked (sent d b s) = spi_locked s"
  "busy_polls (sent d b s) = busy_polls s"
  "framebuffer_black_array (sent d b s) = framebuffer_black_array s"
  "framebuffer_red_array (sent d b s) = framebuffer_red_array s"
  "pins (sent d b s) CS = True"
  "pins (sent d b s) RST = pins s RST"
  by (simp_all add: sent_def)

lemma ready_sent [simp]: "ready (sent d b s) = ready s"
  by (simp add: ready_def)

lemma spin_lock_Some:
  assumes "spin_lock s = Some y"
  shows "\<not> spi_locked s \<and> y = (Inr (), s\<lparr>spi_locked := True\<rparr>)"
proof (rule spin_lock.raw_induct
    [where P = "\<lambda>s y. \<not> spi_locked s \<and> y = (Inr (), s\<lparr>spi_locked := True\<rparr>)", OF _ assms])
  fix spin :: "epd \<Rightarrow> ((error + unit) \<times> epd) option" and s y
  assume "\<And>x y. spin x = Some y \<Longrightarrow> \<not> spi_locked x \<and> y = (Inr (), x\<lparr>spi_locked := True\<rparr>)"
    and "(case try_lock s of (ok, s') \<Rightarrow> if ok then Some (Inr (), s') else spin s') = Some y"
  then show "\<not> spi_locked s \<and> y = (Inr (), s\<lparr>spi_locked := True\<rparr>)"
    by (auto simp: try_lock_def split: if_splits)
qed

section \<open>Projections of the states reached\<close>

lemma print_simps [simp]:
  "trace (print msg s) = trace s @ [Print msg]"
  "env (print msg s) = env s"
  "spi_locked (print msg s) = spi_locked s"
  "busy_polls (print msg s) = busy_polls s"
  "framebuffer_black_array (print msg s) = framebuffer_black_array s"
  "framebuffer_red_array (print msg s) = framebuffer_red_array s"
  "pins (print msg s) = pins s"
  by (simp_all add: print_def)

lemma delay_ms_simps [simp]:
  "trace (delay_ms t s) = trace s @ [Delay t]"
  "env (delay_ms t s) = env s"
  "spi_locked (delay_ms t s) = spi_locked s"
  "busy_polls (delay_ms t s) = busy_polls s"
  "framebuffer_black_array (delay_ms t s) = framebuffer_black_array s"
  "framebuffer_red_array (delay_ms t s) = framebuffer_red_array s"
  "pins (delay_ms t s) = pins s"
  by (simp_all add: delay_ms_def)

lemma digital_write_simps [simp]:
  "trace (digital_write p v s) = trace s @ [PinWrite p v]"
  "env (digital_write p v s) = env s"
  "spi_locked (digital_write p v s) = spi_locked s"
  "busy_polls (digital_write p v s) = busy_polls s"
  "framebuffer_black_array (digital_write p v s) = framebuffer_black_array s"
  "framebuffer_red_array (digital_write p v s) = framebuffer_red_array s"
  "pins (digital_write p v s) = (pins s)(p := v)"
  by (simp_all add: digital_write_def)

lemma busy_read_simps [simp]:
  "trace (busy_read v s) = trace s @ [PinRead BUSY v]"
  "env (busy_read v s) = env s"
  "spi_locked (busy_read v s) = spi_locked s"
  "busy_polls (busy_read v s) = busy_polls s + 1"
  "framebuffer_black_array (busy_read v s) = framebuffer_black_array s"
  "framebuffer_red_array (busy_read v s) = framebuffer_red_array s"
  "pins (busy_read v s) = pins s"
  by (simp_all add: busy_read_def)

lemma streamed_Nil [simp]: "streamed [] s = s"
  by (simp add: streamed_def)

lemma streamed_Cons [simp]: "streamed (b # bs) s = streamed bs (sent True b s)"
  by (simp add: streamed_def)

lemma streamed_simps [simp]:
  "trace (streamed bs s) = trace s @ concat (map (frame True) bs)"
  "env (streamed bs s) = env s"
  "spi_locked (streamed bs s) = spi_locked s"
  "busy_polls (streamed bs s) = busy_polls s"
  "framebuffer_black_array (streamed bs s) = framebuffer_black_array s"
  "framebuffer_red_array (streamed bs s) = framebuffer_red_array s"
  "pins (streamed bs s) RST = pins s RST"
  by (induction bs arbitrary: s; simp)+

lemma polled_simps [simp]:
  "trace (polled n s) = trace s @ concat (replicate n poll_events) @ [PinRead BUSY False]"
  "env (polled n s) = env s"
  "spi_locked (polled n s) = spi_locked s"
  "busy_polls (polled n s) = busy_polls s + n + 1"
  "framebuffer_black_array (polled n s) = framebuffer_black_array s"
  "framebuffer_red_array (polled n s) = framebuffer_red_array s"
  "pins (polled n s) RST = pins s RST"
  by (induction n arbitrary: s; simp add: poll_events_def)+

lemma read_busy_done_simps [simp]:
  "trace (read_busy_done n s) =
     trace s @ Print ''Display busy'' # frame False 0x71 @ concat (replicate n poll_events)
       @ [PinRead BUSY False, Print ''Display free'']"
  "env (read_busy_done n s) = env s"
  "spi_locked (read_busy_done n s) = spi_locked s"
  "busy_polls (read_busy_done n s) = busy_polls s + n + 1"
  "framebuffer_black_array (read_busy_done n s) = framebuffer_black_array s"
  "framebuffer_red_array (read_busy_done n s) = framebuffer_red_array s"
  "pins (read_busy_done n s) RST = pins s RST"
  by (simp_all add: read_busy_done_def)

lemma ready_simps [simp]:
  "ready (print msg s) = ready s"
  "ready (delay_ms t s) = ready s"
  "ready (digital_write p v s) = ready s"
  "ready (busy_read v s) = ready s"
  "ready (streamed bs s) = ready s"
  "ready (polled n s) = ready s"
  "ready (read_busy_done n s) = ready s"
  by (simp_all add: ready_def)

lemma busy_for_simps [simp]:
  "busy_for n (print msg s) = busy_for n s"
  "busy_for n (delay_ms t s) = busy_for n s"
  "busy_for n (digital_write p v s) = busy_for n s"
  "busy_for n (sent d b s) = busy_for n s"
  "busy_for n (streamed bs s) = busy_for n s"
  by (simp_all add: busy_for_def)

section \<open>What is seen on the bus\<close>

lemma bus_Nil [simp]: "bus [] = []"
  by (simp add: bus_def)

lemma bus_append [simp]: "bus (xs @ ys) = bus xs @ bus ys"
  by (simp add: bus_def)

lemma bus_Cons [simp]: "bus (e # es) = bus_of e @ bus es"
  by (simp add: bus_def)

lemma bus_frame [simp]: "bus (frame d b) = [(d, b)]"
  by (simp add: frame_def)

lemma bus_frames [simp]: "bus (concat (map (frame d) bs)) = map (Pair d) bs"
  by (induction bs) simp_all

lemma bus_poll_events [simp]: "bus poll_events = [Cmd 0x71]"
  by (simp add: poll_events_def Cmd_def)

lemma bus_polls [simp]: "bus (concat (replicate n poll_events)) = replicate n (Cmd 0x71)"
  by (induction n) simp_all

lemma bus_reset_events [simp]: "bus reset_events = []"
  by (simp add: reset_events_def)

lemma emitted_append [simp]: "trace s' = trace s @ ev \<Longrightarrow> emitted s s' = ev"
  by (simp add: emitted_def)

lemma fresh_simps [simp]:
  "trace (fresh e) = []"
  "env (fresh e) = e"
  "spi_locked (fresh e) = False"
  "busy_polls (fresh e) = 0"
  "pins (fresh e) p = False"
  by (simp_all add: fresh_def)

lemma healthy_envs [simp]:
  "healthy idle_env" "healthy busy_once_env" "healthy busy_twice_env"
  by (simp_all add: healthy_def idle_env_def busy_once_env_def busy_twice_env_def)

lemma busy_line_envs [simp]:
  "busy_line idle_env i = False"
  "busy_line busy_once_env i = (i = 0)"
  "busy_line busy_twice_env i = (i < 2)"
  by (simp_all add: idle_env_def busy_once_env_def busy_twice_env_def)

section \<open>The busy poll\<close>

lemma busy_for_Suc:
  assumes "busy_for (Suc n) s"
  shows "busy_line (env s) (busy_polls s)" and "busy_for n (busy_read True s)"
proof -
  from assms have all: "\<And>k. k < Suc n \<Longrightarrow> busy_line (env s) (busy_polls s + k)"
    and last: "\<not> busy_line (env s) (busy_polls s + Suc n)"
    by (simp_all add: busy_for_def)
  from all [of 0] show "busy_line (env s) (busy_polls s)" by simp
  have "busy_line (env s) (busy_polls s + 1 + k)" if "k < n" for k
    using all [of "Suc k"] that by simp
  with last show "busy_for n (busy_read True s)"
    by (simp add: busy_for_def)
qed

lemma ReadBusy_loop_ok:
  "ready s \<Longrightarrow> busy_for n s \<Longrightarrow> ReadBusy_loop s = Some (Inr (), polled n s)"
proof (induction n arbitrary: s)
  case 0
  then show ?case
    by (subst ReadBusy_loop.simps)
      (simp add: digital_read_def busy_for_def busy_read_def Let_def)
next
  case (Suc n)
  let ?s1 = "busy_read True s"
  let ?s2 = "delay_ms 10 (sent False 0x71 ?s1)"
  from Suc.prems(2) have now: "busy_line (env s) (busy_polls s)" and later: "busy_for n ?s1"
    by (rule busy_for_Suc)+
  from now have rd: "digital_read BUSY s = (True, ?s1)"
    by (simp add: digital_read_def busy_read_def Let_def)
  from Suc.prems have "send_command 0x71 ?s1 = Some (Inr (), sent False 0x71 ?s1)"
    by (simp add: send_command_ok)
  then have step: "run [send_command 0x71, lift (delay_ms 10)] ?s1 = Some (Inr (), ?s2)"
    by simp
  from Suc.prems later have "ReadBusy_loop ?s2 = Some (Inr (), polled n ?s2)"
    by (intro Suc.IH) simp_all
  with rd step show ?case
    by (subst ReadBusy_loop.simps) simp
qed

lemma ReadBusy_ok:
  assumes "ready s" and "busy_for n s"
  shows "ReadBusy s = Some (Inr (), read_busy_done n s)"
proof -
  let ?s1 = "sent False 0x71 (print ''Display busy'' s)"
  from assms have "send_command 0x71 (print ''Display busy'' s) = Some (Inr (), ?s1)"
    by (simp add: send_command_ok)
  moreover from assms have "ReadBusy_loop ?s1 = Some (Inr (), polled n ?s1)"
    by (intro ReadBusy_loop_ok) simp_all
  ultimately show ?thesis
    by (simp add: ReadBusy_def read_busy_done_def)
qed

section \<open>Streams of bytes\<close>

lemma run_run: "run (run ms # ns) s = run (ms @ ns) s"
  by (simp add: run_append split: option.splits sum.splits)

lemma run_concat: "run (map (\<lambda>j. run (f j)) js) s = run (concat (map f js)) s"
proof (induction js arbitrary: s)
  case Nil
  show ?case by simp
next
  case (Cons j js)
  have "run (map (\<lambda>j. run (f j)) (j # js)) s = run (f j @ map (\<lambda>j. run (f j)) js) s"
    by (simp only: list.map run_run)
  also have "\<dots> = run (f j @ concat (map f js)) s"
    by (simp only: run_append Cons.IH)
  finally show ?case by simp
qed

lemma rows_flatten:
  "concat (map (\<lambda>j. map (\<lambda>i. g (i + j * w)) [0..<w]) [0..<h]) = map g [0..<h * w]"
proof (induction h)
  case 0
  show ?case by simp
next
  case (Suc h)
  have "map (\<lambda>i. g (i + h * w)) [0..<w] = map g (map (\<lambda>i. i + h * w) [0..<w])"
    by (simp add: comp_def)
  also have "map (\<lambda>i. i + h * w) [0..<w] = [h * w..<h * w + w]"
    using map_add_upt [of "h * w" w] by (simp add: add.commute)
  finally have "map (\<lambda>i. g (i + h * w)) [0..<w] = map g [h * w..<h * w + w]" .
  moreover have "[0..<Suc h * w] = [0..<h * w] @ [h * w..<h * w + w]"
    using upt_add_eq_append [of 0 "h * w" w] by (simp add: add.commute)
  ultimately show ?case
    using Suc by simp
qed

lemma for_range_rows:
  "for_range h (\<lambda>j. for_range w (\<lambda>i. g (i + j * w))) s = run (map g [0..<h * w]) s"
  by (simp add: for_range_def run_concat rows_flatten)

lemma run_send_data:
  "ready s \<Longrightarrow> \<forall>b \<in> set bs. 0 \<le> b \<and> b \<le> 255 \<Longrightarrow>
   run (map send_data bs) s = Some (Inr (), streamed bs s)"
  by (induction bs arbitrary: s) (simp_all add: send_data_ok)

lemma geometry [simp]:
  "width = 128" "height = 250" "byte_stride = 16"
  by (simp_all add: width_def height_def byte_stride_def EPD_WIDTH_def EPD_HEIGHT_def)

lemma run_send_items:
  assumes keep: "\<And>d b t. fb (sent d b t) = fb t"
  shows "ready s \<Longrightarrow> \<forall>k \<in> set ks. k < length (fb s) \<Longrightarrow>
    run (map (\<lambda>k t. bind (getitem (fb t) k) send_data t) ks) s
      = Some (Inr (), streamed (map (\<lambda>k. uint (fb s ! k)) ks) s)"
proof (induction ks arbitrary: s)
  case Nil
  show ?case by simp
next
  case (Cons k ks)
  let ?b = "uint (fb s ! k)"
  have rng: "0 \<le> ?b" "?b \<le> 255"
    using uint_bounded [of "fb s ! k"] by simp_all
  from Cons.prems have "bind (getitem (fb s) k) send_data s = Some (Inr (), sent True ?b s)"
    by (simp add: bind_def getitem_def ret_def send_data_ok rng)
  moreover from Cons.prems
  have "run (map (\<lambda>k t. bind (getitem (fb t) k) send_data t) ks) (sent True ?b s)
      = Some (Inr (), streamed (map (\<lambda>k. uint (fb (sent True ?b s) ! k)) ks) (sent True ?b s))"
    by (intro Cons.IH) (simp_all add: keep)
  ultimately show ?case
    by (simp add: keep)
qed

lemma TurnOnDisplay_ok:
  assumes "ready s" and "busy_for n s"
  shows "TurnOnDisplay s = Some (Inr (), read_busy_done n (sent False 0x20 s))"
  using assms by (simp add: TurnOnDisplay_def send_command_ok ReadBusy_ok)

section \<open>Writing the two planes and refreshing\<close>

lemma ram_written_simps [simp]:
  "trace (ram_written bs rs s) =
     trace s @ frame False 0x24 @ concat (map (frame True) bs)
       @ frame False 0x26 @ concat (map (frame True) rs)"
  "env (ram_written bs rs s) = env s"
  "spi_locked (ram_written bs rs s) = spi_locked s"
  "busy_polls (ram_written bs rs s) = busy_polls s"
  "framebuffer_black_array (ram_written bs rs s) = framebuffer_black_array s"
  "framebuffer_red_array (ram_written bs rs s) = framebuffer_red_array s"
  "pins (ram_written bs rs s) RST = pins s RST"
  "ready (ram_written bs rs s) = ready s"
  "busy_for n (ram_written bs rs s) = busy_for n s"
  by (simp_all add: ram_written_def)

lemma refreshed_simps [simp]:
  "trace (refreshed n s) =
     trace s @ frame False 0x20 @ Print ''Display busy'' # frame False 0x71
       @ concat (replicate n poll_events) @ [PinRead BUSY False, Print ''Display free'']"
  "env (refreshed n s) = env s"
  "spi_locked (refreshed n s) = spi_locked s"
  "busy_polls (refreshed n s) = busy_polls s + n + 1"
  "framebuffer_black_array (refreshed n s) = framebuffer_black_array s"
  "framebuffer_red_array (refreshed n s) = framebuffer_red_array s"
  "pins (refreshed n s) RST = pins s RST"
  "ready (refreshed n s) = ready s"
  by (simp_all add: refreshed_def)

lemma TurnOnDisplay_refreshed:
  assumes "ready s" and "busy_for n s"
  shows "TurnOnDisplay s = Some (Inr (), refreshed n s)"
  using assms by (simp add: TurnOnDisplay_ok refreshed_def)

lemma run_replicate_send_data:
  "ready s \<Longrightarrow> 0 \<le> b \<Longrightarrow> b \<le> 255 \<Longrightarrow>
   run (replicate n (send_data b)) s = Some (Inr (), streamed (replicate n b) s)"
  by (induction n arbitrary: s) (simp_all add: send_data_ok)

lemma map_nth_take:
  assumes "n \<le> length xs"
  shows "map (\<lambda>k. f (xs ! k)) [0..<n] = map f (take n xs)"
proof -
  from assms have "[0..<n] = take n [0..<length xs]"
    by simp
  then have "map ((!) xs) [0..<n] = take n (map ((!) xs) [0..<length xs])"
    by (simp only: take_map)
  then have "map ((!) xs) [0..<n] = take n xs"
    by (simp only: map_nth)
  then have "map f (map ((!) xs) [0..<n]) = map f (take n xs)"
    by simp
  then show ?thesis
    by (simp add: comp_def)
qed

lemma write_ram_const:
  assumes "ready s" and "0 \<le> b" and "b \<le> 255"
  shows "for_range (nat height) (\<lambda>j. for_range (nat byte_stride) (\<lambda>i. send_data b)) s
         = Some (Inr (), streamed (replicate 4000 b) s)"
proof -
  have "for_range 250 (\<lambda>j. for_range 16 (\<lambda>i. (\<lambda>k. send_data b) (i + j * 16))) s
        = run (map (\<lambda>k. send_data b) [0..<250 * 16]) s"
    by (rule for_range_rows)
  moreover have "map (\<lambda>k. send_data b) [0..<250 * 16] = replicate 4000 (send_data b)"
    by (simp add: map_replicate_const)
  ultimately show ?thesis
    using assms by (simp add: run_replicate_send_data)
qed

lemma write_ram_buffer:
  assumes keep: "\<And>d b t. fb (sent d b t) = fb t"
    and "ready s" and "4000 \<le> length (fb s)"
  shows "for_range (nat height) (\<lambda>j. for_range (nat byte_stride) (\<lambda>i.
            (\<lambda>t. bind (getitem (fb t) (i + j * nat byte_stride)) send_data t))) s
         = Some (Inr (), streamed (map uint (take 4000 (fb s))) s)"
proof -
  have "for_range 250 (\<lambda>j. for_range 16 (\<lambda>i.
          (\<lambda>k t. bind (getitem (fb t) k) send_data t) (i + j * 16))) s
        = run (map (\<lambda>k t. bind (getitem (fb t) k) send_data t) [0..<250 * 16]) s"
    by (rule for_range_rows)
  moreover have "run (map (\<lambda>k t. bind (getitem (fb t) k) send_data t) [0..<250 * 16]) s
        = Some (Inr (), streamed (map (\<lambda>k. uint (fb s ! k)) [0..<250 * 16]) s)"
    using assms(2,3) by (intro run_send_items keep) simp_all
  moreover have "map (\<lambda>k. uint (fb s ! k)) [0..<250 * 16] = map uint (take 4000 (fb s))"
    using assms(3) map_nth_take [of 4000 "fb s" uint] by simp
  ultimately show ?thesis
    by simp
qed

lemma Clear_ok:
  assumes "ready s" and "busy_for n s" and "0 \<le> b" "b \<le> 255" "0 \<le> r" "r \<le> 255"
  shows "Clear b r s
         = Some (Inr (), refreshed n (ram_written (replicate 4000 b) (replicate 4000 r) s))"
  using assms
  by (simp add: Clear_def send_command_ok write_ram_const TurnOnDisplay_refreshed
      ram_written_def del: geometry)

lemma display_ok:
  assumes "ready s" and "busy_for n s"
    and "4000 \<le> length (framebuffer_black_array s)"
    and "4000 \<le> length (framebuffer_red_array s)"
  shows "display s
         = Some (Inr (), refreshed n
             (ram_written (map uint (take 4000 (framebuffer_black_array s)))
                          (map uint (take 4000 (framebuffer_red_array s))) s))"
  using assms
  by (simp add: display_def send_command_ok write_ram_buffer TurnOnDisplay_refreshed
      ram_written_def del: geometry)

section \<open>Window and cursor addressing\<close>

lemma and_255: "(x::int) AND 0xFF = x mod 256"
proof -
  have "(0xFF::int) = mask 8"
    by (simp add: mask_eq_exp_minus_1)
  then have "x AND 0xFF = take_bit 8 x"
    by (simp only: take_bit_eq_mask)
  then show ?thesis
    by (simp add: take_bit_eq_mod)
qed

lemma byte_range: "0 \<le> (x::int) AND 0xFF" "(x::int) AND 0xFF \<le> 255"
  by (simp_all add: and_255)

lemma shifted_byte: "drop_bit k (x::int) AND 0xFF = x div 2 ^ k mod 256"
  by (simp add: and_255 drop_bit_eq_div)

lemma commands_simps [simp]:
  "commands [] = []"
  "commands (xs @ ys) = commands xs @ commands ys"
  "commands (frame False c) = [c]"
  "commands (frame True d) = []"
  "commands (concat (map (frame True) bs)) = []"
  "commands [PinRead p v] = []"
  "commands [Print msg] = []"
  "commands (Print msg # es) = commands es"
  "commands (concat (replicate n poll_events)) = replicate n 0x71"
  by (simp_all add: commands_def Cmd_def)

lemma data_bytes_simps [simp]:
  "data_bytes [] = []"
  "data_bytes (xs @ ys) = data_bytes xs @ data_bytes ys"
  "data_bytes (frame False c) = []"
  "data_bytes (frame True d) = [d]"
  "data_bytes (concat (map (frame True) bs)) = bs"
  "data_bytes [PinRead p v] = []"
  "data_bytes [Print msg] = []"
  "data_bytes (Print msg # es) = data_bytes es"
  "data_bytes (concat (replicate n poll_events)) = []"
  by (simp_all add: data_bytes_def Cmd_def comp_def)


lemma window_frames:
  assumes "ready s"
    and "0 \<le> a" "a \<le> 255" "0 \<le> b" "b \<le> 255" "0 \<le> c" "c \<le> 255"
    and "0 \<le> d" "d \<le> 255" "0 \<le> e" "e \<le> 255" "0 \<le> f" "f \<le> 255"
  shows "run [send_command 0x44, send_data a, send_data b,
              send_command 0x45, send_data c, send_data d, send_data e, send_data f] s =
     Some (Inr (), streamed [c, d, e, f] (sent False 0x45 (streamed [a, b] (sent False 0x44 s))))"
  using assms by (simp add: send_command_ok send_data_ok)

lemma cursor_frames:
  assumes "ready s"
    and "0 \<le> a" "a \<le> 255" "0 \<le> c" "c \<le> 255" "0 \<le> d" "d \<le> 255"
  shows "run [send_command 0x4E, send_data a, send_command 0x4F, send_data c, send_data d] s =
     Some (Inr (), streamed [c, d] (sent False 0x4F (streamed [a] (sent False 0x4E s))))"
  using assms by (simp add: send_command_ok send_data_ok)

lemma SetWindows_ok:
  assumes "ready s"
  shows "SetWindows x0 y0 x1 y1 s =
     Some (Inr (), streamed [y0 AND 0xFF, drop_bit 8 y0 AND 0xFF, y1 AND 0xFF, drop_bit 8 y1 AND 0xFF]
        (sent False 0x45 (streamed [drop_bit 3 x0 AND 0xFF, drop_bit 3 x1 AND 0xFF] (sent False 0x44 s))))"
  unfolding SetWindows_def using assms by (rule window_frames) (rule byte_range)+

lemma SetCursor_ok:
  assumes "ready s"
  shows "SetCursor x y s =
     Some (Inr (), streamed [y AND 0xFF, drop_bit 8 y AND 0xFF]
        (sent False 0x4F (streamed [x AND 0xFF] (sent False 0x4E s))))"
  unfolding SetCursor_def using assms by (rule cursor_frames) (rule byte_range)+

section \<open>Claims\<close>

text \<open>
  C1. When the busy line reads asserted on the first \<open>n\<close> polls and deasserted on the
  next one, \<open>ReadBusy\<close> returns, having read the line exactly \<open>n + 1\<close> times: it stops at
  the first deasserted read. It sends the status command \<open>0x71\<close> once before the loop and
  once per asserted read, \<open>n + 1\<close> times in all and nothing else, and each re-issue in the
  loop is followed by a 10 ms delay.
\<close>

theorem ReadBusy_stops_at_first_idle_read:
  assumes "ready s" and "busy_for n s"
  shows "\<exists>s'. ReadBusy s = Some (Inr (), s') \<and>
           busy_polls s' = busy_polls s + n + 1 \<and>
           emitted s s' =
             Print ''Display busy'' # frame False 0x71
               @ concat (replicate n (PinRead BUSY True # frame False 0x71 @ [Delay 10]))
               @ [PinRead BUSY False, Print ''Display free''] \<and>
           bus (emitted s s') = replicate (n + 1) (Cmd 0x71)"
proof -
  let ?s' = "read_busy_done n s"
  have tr: "trace ?s' =
      trace s @ (Print ''Display busy'' # frame False 0x71
        @ concat (replicate n (PinRead BUSY True # frame False 0x71 @ [Delay 10]))
        @ [PinRead BUSY False, Print ''Display free''])"
    by (simp add: poll_events_def)
  have "bus (emitted s ?s') = Cmd 0x71 # replicate n (Cmd 0x71)"
    by (simp add: emitted_def Cmd_def)
  with assms tr show ?thesis
    by (simp add: ReadBusy_ok)
qed

theorem ReadBusy_stops_at_first_idle_read_witness:
  "ready (fresh busy_twice_env) \<and> busy_for 2 (fresh busy_twice_env) \<and>
   (\<exists>s'. ReadBusy (fresh busy_twice_env) = Some (Inr (), s') \<and>
      busy_polls s' = 3 \<and>
      bus (emitted (fresh busy_twice_env) s') = [Cmd 0x71, Cmd 0x71, Cmd 0x71])"
proof -
  have r: "ready (fresh busy_twice_env)"
    by (simp add: ready_def)
  have b: "busy_for 2 (fresh busy_twice_env)"
    by (simp add: busy_for_def)
  from ReadBusy_stops_at_first_idle_read [OF r b] r b show ?thesis
    by (auto simp: numeral_3_eq_3)
qed

text \<open>
  C9. Whenever \<open>spi_writebyte\<close> returns, with a value or with an exception, the bus lock
  is released. When the write step raises (the bus write itself, or the construction of
  the bytearray), chip-select is left asserted (low); when the configure step raises,
  chip-select is left as it was.
\<close>

theorem spi_writebyte_releases_lock:
  assumes "spi_writebyte data s = Some (r, s')"
  shows "\<not> spi_locked s' \<and>
         (r = Inl SpiWriteError \<or> r = Inl ValueError \<longrightarrow> \<not> pins s' CS) \<and>
         (r = Inl SpiConfigureError \<longrightarrow> pins s' CS = pins s CS)"
  using assms
  by (auto simp: spi_writebyte_def unlock_def spi_transfer_def spi_configure_def spi_write_def
      Let_def digital_write_def
      split: option.splits sum.splits prod.splits if_splits dest!: spin_lock_Some)

theorem spi_writebyte_releases_lock_witness:
  "\<exists>s'. spi_writebyte [0x24] (digital_write CS True (fresh write_fault_env))
           = Some (Inl SpiWriteError, s') \<and>
      \<not> spi_locked s' \<and> \<not> pins s' CS"
proof -
  let ?s = "digital_write CS True (fresh write_fault_env)"
  have "\<exists>s'. spi_writebyte [0x24] ?s = Some (Inl SpiWriteError, s')"
    by (simp add: spi_writebyte_def spin_lock_free spi_transfer_def spi_configure_def
        spi_write_def Let_def write_fault_env_def)
  then obtain s' where out: "spi_writebyte [0x24] ?s = Some (Inl SpiWriteError, s')" ..
  from spi_writebyte_releases_lock [OF out] out show ?thesis
    by auto
qed

text \<open>
  C10. A \<open>send_command\<close> or a \<open>send_data\<close> that completes leaves chip-select high, and
  what it did on the lines is one frame around one byte: data/command select is set,
  chip-select is asserted, the bus is configured, the single byte is written, and
  chip-select is deasserted, before anything else can be sent.
\<close>

theorem framed_byte_leaves_cs_high:
  "(send_command c s = Some (Inr u, s') \<longrightarrow>
      pins s' CS \<and>
      emitted s s' =
        [PinWrite DC False, PinWrite CS False,
         SpiConfigure, PinWrite CS False, SpiWrite False [c], PinWrite CS True,
         PinWrite CS True]) \<and>
   (send_data d s = Some (Inr u, s') \<longrightarrow>
      pins s' CS \<and>
      emitted s s' =
        [PinWrite DC True, PinWrite CS False,
         SpiConfigure, PinWrite CS False, SpiWrite True [d], PinWrite CS True,
         PinWrite CS True])"
  by (auto simp: send_command_def send_data_def digital_write_def spi_writebyte_def unlock_def
     spi_transfer_def spi_configure_def spi_write_def Let_def emitted_def
     split: option.splits sum.splits prod.splits if_splits dest!: spin_lock_Some)

theorem framed_byte_leaves_cs_high_witness:
  "send_command 0x20 (fresh idle_env) = Some (Inr (), sent False 0x20 (fresh idle_env)) \<and>
   pins (sent False 0x20 (fresh idle_env)) CS \<and>
   send_data 0x80 (fresh idle_env) = Some (Inr (), sent True 0x80 (fresh idle_env)) \<and>
   pins (sent True 0x80 (fresh idle_env)) CS"
proof -
  have r: "ready (fresh idle_env)" by (simp add: ready_def)
  have c: "send_command 0x20 (fresh idle_env) = Some (Inr (), sent False 0x20 (fresh idle_env))"
    using r by (simp add: send_command_ok)
  have d: "send_data 0x80 (fresh idle_env) = Some (Inr (), sent True 0x80 (fresh idle_env))"
    using r by (simp add: send_data_ok)
  from framed_byte_leaves_cs_high [of "0x20" "fresh idle_env" "()" "sent False 0x20 (fresh idle_env)"]
    framed_byte_leaves_cs_high [of _ "fresh idle_env" "()" "sent True 0x80 (fresh idle_env)" "0x80"]
    c d show ?thesis by blast
qed

end
